theory Spec2Isabelle
  imports Main
begin

section \<open>JavaScript values, objects and the object store\<close>

text \<open>
  The wizard state is a plain JavaScript object. A property value is a tree; an object is
  the list of its own enumerable properties in insertion order, with pairwise distinct keys.
\<close>

datatype jsval =
    Undefined
  | Null
  | Bool bool
  | Num int
  | Str string
  | Arr "jsval list"
  | Obj "(string \<times> jsval) list"

type_synonym jsobj = "(string \<times> jsval) list"

text \<open>
  Assignment of one property: an existing key keeps its position and takes the new value,
  a new key is appended.
\<close>

primrec setProp :: "string \<Rightarrow> jsval \<Rightarrow> jsobj \<Rightarrow> jsobj" where
  "setProp k v [] = [(k, v)]"
| "setProp k v (p # ps) = (if fst p = k then (k, v) # ps else p # setProp k v ps)"

text \<open>
  One spread element \<^verbatim>\<open>...src\<close> of an object literal: every own property of \<open>src\<close>, in
  order, is assigned to the object under construction.
\<close>

definition copyProps :: "jsobj \<Rightarrow> jsobj \<Rightarrow> jsobj" where
  "copyProps src tgt = fold (\<lambda>(k, v). setProp k v) src tgt"

text \<open>The object literal \<^verbatim>\<open>{ ...a, ...b }\<close>.\<close>

definition spread :: "jsobj \<Rightarrow> jsobj \<Rightarrow> jsobj" where
  "spread a b = copyProps b (copyProps a [])"

text \<open>
  Objects live in a store and are held by reference. An object literal allocates a new
  cell; no operation of the component writes to an existing cell.
\<close>

type_synonym ref = nat
type_synonym store = "jsobj list"

definition alloc :: "jsobj \<Rightarrow> store \<Rightarrow> ref \<times> store" where
  "alloc obj h = (length h, h @ [obj])"

definition deref :: "store \<Rightarrow> ref \<Rightarrow> jsobj" where
  "deref h r = h ! r"

section \<open>The wizard container: \<^verbatim>\<open>AkApplicationWizardMain\<close>\<close>

text \<open>\<^verbatim>\<open>const asArr = <T>(v: T | T[]): T[] => (Array.isArray(v) ? v : [v]);\<close>\<close>

datatype 'a one_or_many = One 'a | Many "'a list"

fun asArr :: "'a one_or_many \<Rightarrow> 'a list" where
  "asArr (Many vs) = vs"
| "asArr (One v) = [v]"

text \<open>The operand \<^verbatim>\<open>x ?? []\<close> of \<open>asArr\<close>.\<close>

fun orEmpty :: "'a one_or_many option \<Rightarrow> 'a one_or_many" where
  "orEmpty None = Many []"
| "orEmpty (Some v) = v"

text \<open>
  A JavaScript \<open>Set\<close> of strings is the list of its members in insertion order.
  \<^verbatim>\<open>new Set(iterable)\<close> adds the elements one by one; adding a member again changes nothing.
\<close>

definition setAdd :: "'a \<Rightarrow> 'a list \<Rightarrow> 'a list" where
  "setAdd x s = (if x \<in> set s then s else s @ [x])"

definition newSet :: "'a list \<Rightarrow> 'a list" where
  "newSet xs = fold setAdd xs []"

definition freshWizardState :: jsobj where
  "freshWizardState =
     [(''providerModel'', Str ''''),
      (''currentBinding'', Num (- 1)),
      (''app'', Obj []),
      (''provider'', Obj []),
      (''errors'', Obj []),
      (''bindings'', Arr [])]"

text \<open>
  Modelled from the spec: the declarations of \<^verbatim>\<open>WizardUpdateEvent\<close> (module
  \<^verbatim>\<open>ak-wizard/events\<close>) and \<^verbatim>\<open>ApplicationWizardStateUpdate\<close> (module \<^verbatim>\<open>./types\<close>) are not
  part of the source file. The spec gives the event as
  \<^verbatim>\<open>WizardUpdateEvent{update?, status?{enable?, disable?}}\<close>, where enable and disable are
  a single identifier or a list; the handler reads exactly these fields.
\<close>

record WizardStatus =
  enable :: "string one_or_many option"
  disable :: "string one_or_many option"

record ApplicationWizardStateUpdate =
  update :: "jsobj option"
  status :: "WizardStatus option"

record WizardUpdateEvent =
  content :: ApplicationWizardStateUpdate
  propagationStopped :: bool

definition stopPropagation :: "WizardUpdateEvent \<Rightarrow> WizardUpdateEvent" where
  "stopPropagation ev = ev\<lparr>propagationStopped := True\<rparr>"

text \<open>The two reactive fields of the component, and the store that holds its objects.\<close>

record AkApplicationWizardMain =
  heap :: store
  wizard :: ref
  enabled :: "string list"

definition initMain :: AkApplicationWizardMain where
  "initMain = \<lparr>heap = [freshWizardState], wizard = 0, enabled = newSet [''application'']\<rparr>"

definition wizardOf :: "AkApplicationWizardMain \<Rightarrow> jsobj" where
  "wizardOf this = deref (heap this) (wizard this)"

text \<open>
  Every reference of a running program points into the store, and the keys of an object
  are pairwise distinct.
\<close>

definition wf_main :: "AkApplicationWizardMain \<Rightarrow> bool" where
  "wf_main this =
     (wizard this < length (heap this) \<and> distinct (map fst (wizardOf this)))"

definition mergeUpdate :: "jsobj option \<Rightarrow> AkApplicationWizardMain \<Rightarrow> AkApplicationWizardMain" where
  "mergeUpdate u this =
     (case u of
        None \<Rightarrow> this
      | Some upd \<Rightarrow>
          (let (r, h) = alloc (spread (wizardOf this) upd) (heap this)
           in this\<lparr>heap := h, wizard := r\<rparr>))"

definition applyStatus :: "WizardStatus option \<Rightarrow> AkApplicationWizardMain \<Rightarrow> AkApplicationWizardMain" where
  "applyStatus s this =
     (case s of
        None \<Rightarrow> this
      | Some st \<Rightarrow>
          (let enable' = asArr (orEmpty (enable st));
               disable' = asArr (orEmpty (disable st))
           in this\<lparr>enabled :=
                newSet (filter (\<lambda>k. k \<notin> set disable') (enabled this) @ enable')\<rparr>))"

text \<open>
  \<open>handleUpdate\<close> returns the event (now marked as handled) and the component after the
  two conditional assignments, in the order of the source.
\<close>

definition handleUpdate ::
  "WizardUpdateEvent \<Rightarrow> AkApplicationWizardMain \<Rightarrow> WizardUpdateEvent \<times> AkApplicationWizardMain" where
  "handleUpdate ev this =
     (let ev' = stopPropagation ev;
          this1 = mergeUpdate (update (content ev')) this;
          this2 = applyStatus (status (content ev')) this1
      in (ev', this2))"

text \<open>A sequence of events, each handled in turn.\<close>

definition handleAll :: "WizardUpdateEvent list \<Rightarrow> AkApplicationWizardMain \<Rightarrow> AkApplicationWizardMain" where
  "handleAll evs this = fold (\<lambda>ev s. snd (handleUpdate ev s)) evs this"

definition updatesOf :: "WizardUpdateEvent list \<Rightarrow> jsobj list" where
  "updatesOf evs = List.map_filter (\<lambda>ev. update (content ev)) evs"

text \<open>
  The deep merge that the specification's sentence on sequences of updates names: where
  the old and the new value of a key are both objects they are merged key by key,
  recursively; any other new value replaces the old one.
\<close>

fun deepMergeVal :: "jsval \<Rightarrow> jsval \<Rightarrow> jsval"
  and deepMerge :: "jsobj \<Rightarrow> jsobj \<Rightarrow> jsobj" where
  "deepMergeVal (Obj a) (Obj b) = Obj (deepMerge a b)"
| "deepMergeVal old new = new"
| "deepMerge a [] = a"
| "deepMerge a ((k, v) # rest) =
     deepMerge
       (case map_of a k of
          Some old \<Rightarrow> setProp k (deepMergeVal old v) a
        | None \<Rightarrow> setProp k v a)
       rest"

fun deepMergeAll :: "jsobj \<Rightarrow> jsobj list \<Rightarrow> jsobj" where
  "deepMergeAll w [] = w"
| "deepMergeAll w (u # us) = deepMergeAll (deepMerge w u) us"

text \<open>The same fold with the merge the handler performs, the spread of two objects.\<close>

fun shallowMergeAll :: "jsobj \<Rightarrow> jsobj list \<Rightarrow> jsobj" where
  "shallowMergeAll w [] = w"
| "shallowMergeAll w (u # us) = shallowMergeAll (spread w u) us"

section \<open>A wizard step: \<^verbatim>\<open>WizardStep\<close>\<close>

text \<open>A raised \<^verbatim>\<open>Error\<close>, with its message.\<close>

datatype error = Error string

datatype ButtonKind = Next | Back | Close | Cancel

text \<open>
  Modelled from the spec: the declarations of \<^verbatim>\<open>WizardButton\<close>, \<^verbatim>\<open>NavigableButton\<close>,
  \<^verbatim>\<open>WizardStepLabel\<close> and \<^verbatim>\<open>WizardStepState\<close> (module \<^verbatim>\<open>./types\<close>) and of the event
  classes (module \<^verbatim>\<open>./events.js\<close>) are not part of the source file. The spec gives a button
  as \<^verbatim>\<open>{kind, disabled?}\<close> or \<^verbatim>\<open>{kind, destination}\<close>, each with an optional label, a step
  label as \<^verbatim>\<open>{id, label, enabled, active}\<close>, the ambient state as
  \<^verbatim>\<open>wizardStepState{currentStep, stepLabels}\<close> and the events as
  \<^verbatim>\<open>WizardNavigationEvent{destination}\<close> and \<^verbatim>\<open>WizardCloseEvent{}\<close>. The button record has
  every field the code reads; an optional field that is absent (or \<^verbatim>\<open>undefined\<close>) is \<open>None\<close>.
\<close>

record WizardButton =
  kind :: ButtonKind
  label :: "string option"
  disabled :: "bool option"
  destination :: "string option"

record WizardStepLabel =
  sl_id :: string
  sl_label :: string
  sl_enabled :: bool
  sl_active :: bool

record WizardStepState =
  currentStep :: "string option"
  stepLabels :: "WizardStepLabel list"

datatype WizardEvent = WizardNavigationEvent string | WizardCloseEvent

text \<open>
  \<^verbatim>\<open>"destination" in b && typeof b.destination === "string" && b.destination.length > 0\<close>
\<close>

definition isNavigable :: "WizardButton \<Rightarrow> bool" where
  "isNavigable b = (case destination b of None \<Rightarrow> False | Some d \<Rightarrow> length d > 0)"

text \<open>\<open>msg\<close> is the localisation lookup; in the source locale it returns its argument.\<close>

definition msg :: "string \<Rightarrow> string" where
  "msg s = s"

fun BUTTON_KIND_TO_CLASS :: "ButtonKind \<Rightarrow> string" where
  "BUTTON_KIND_TO_CLASS Next = ''pf-m-primary''"
| "BUTTON_KIND_TO_CLASS Back = ''pf-m-secondary''"
| "BUTTON_KIND_TO_CLASS Close = ''pf-m-link''"
| "BUTTON_KIND_TO_CLASS Cancel = ''pf-m-link''"

fun BUTTON_KIND_TO_LABEL :: "ButtonKind \<Rightarrow> string" where
  "BUTTON_KIND_TO_LABEL Next = msg ''Next''"
| "BUTTON_KIND_TO_LABEL Back = msg ''Back''"
| "BUTTON_KIND_TO_LABEL Cancel = msg ''Cancel''"
| "BUTTON_KIND_TO_LABEL Close = msg ''Close''"

subsection \<open>Rendered controls\<close>

text \<open>
  What a template attaches to a button's \<^verbatim>\<open>@click\<close>: one of the three bound handlers of the
  step; the navigation handler closes over its button.
\<close>

datatype handler =
    OnWizardCloseEvent
  | OnWizardNavigationEvent WizardButton
  | OnSidebarNav

text \<open>
  A rendered \<^verbatim>\<open><button>\<close>: its class list, its other content attributes by name, the boolean
  attribute \<^verbatim>\<open>disabled\<close>, the click listener and the text inside.
\<close>

record ButtonElement =
  classes :: "string list"
  attributes :: "(string \<times> string) list"
  isDisabled :: bool
  onClick :: "handler option"
  textContent :: string

text \<open>A footer button is either wrapped in the footer-cancel \<^verbatim>\<open><div>\<close> or bare.\<close>

datatype ButtonTemplate = FooterCancel ButtonElement | Bare ButtonElement

text \<open>The \<open>classMap\<close> directive: the keys whose value is true, in order.\<close>

definition classMap :: "(string \<times> bool) list \<Rightarrow> string list" where
  "classMap cs = map fst (filter snd cs)"

definition getButtonLabel :: "WizardButton \<Rightarrow> string" where
  "getButtonLabel button =
     (case label button of Some l \<Rightarrow> l | None \<Rightarrow> BUTTON_KIND_TO_LABEL (kind button))"

definition getButtonClasses :: "WizardButton \<Rightarrow> (string \<times> bool) list" where
  "getButtonClasses button =
     [(''pf-c-button'', True), (BUTTON_KIND_TO_CLASS (kind button), True)]"

definition renderCloseButton :: "WizardButton \<Rightarrow> ButtonTemplate" where
  "renderCloseButton button =
     FooterCancel
       \<lparr>classes = classMap (getButtonClasses button),
        attributes = [(''type'', ''button'')],
        isDisabled = False,
        onClick = Some OnWizardCloseEvent,
        textContent = getButtonLabel button\<rparr>"

definition renderDisabledButton :: "WizardButton \<Rightarrow> ButtonTemplate" where
  "renderDisabledButton button =
     Bare
       \<lparr>classes = classMap (getButtonClasses button),
        attributes = [(''type'', ''button'')],
        isDisabled = True,
        onClick = None,
        textContent = getButtonLabel button\<rparr>"

definition renderNavigableButton :: "WizardButton \<Rightarrow> ButtonTemplate" where
  "renderNavigableButton button =
     Bare
       \<lparr>classes = classMap (getButtonClasses button),
        attributes = [(''type'', ''button'')],
        isDisabled = False,
        onClick = Some (OnWizardNavigationEvent button),
        textContent = getButtonLabel button\<rparr>"

text \<open>
  The ordered match of \<open>renderButton\<close>: \<^verbatim>\<open>{ disabled: true }\<close>, then
  \<^verbatim>\<open>{ kind: P.union("close", "cancel") }\<close>, then \<^verbatim>\<open>{ destination: P.string }\<close> (any string,
  the empty one too), otherwise the error.
\<close>

definition renderButton :: "WizardButton \<Rightarrow> error + ButtonTemplate" where
  "renderButton button =
     (if disabled button = Some True then Inr (renderDisabledButton button)
      else if kind button = Close \<or> kind button = Cancel then Inr (renderCloseButton button)
      else if destination button \<noteq> None then Inr (renderNavigableButton button)
      else Inl (Error ''Button type is not close, disabled, or navigable?''))"

definition renderHeaderCancelIcon :: ButtonElement where
  "renderHeaderCancelIcon =
     \<lparr>classes = [''pf-c-button'', ''pf-m-plain'', ''pf-c-wizard__close''],
      attributes = [(''type'', ''button''), (''aria-label'', msg ''Close'')],
      isDisabled = False,
      onClick = Some OnWizardCloseEvent,
      textContent = []\<rparr>"

definition renderSidebarStep :: "WizardStepLabel \<Rightarrow> ButtonElement" where
  "renderSidebarStep step =
     (let buttonClasses = [(''pf-c-wizard__nav-link'', True), (''pf-m-current'', sl_active step)]
      in \<lparr>classes = classMap buttonClasses,
          attributes = [(''target'', sl_id step)],
          isDisabled = (\<not> sl_enabled step),
          onClick = Some OnSidebarNav,
          textContent = sl_label step\<rparr>)"

subsection \<open>Event handlers\<close>

text \<open>
  The handlers return the events the step dispatches, or the error they raise. In the
  last branch below the button has passed \<open>isNavigable\<close>, so it has a destination; the
  branch for a missing one is never taken.
\<close>

definition handleNavigationEvent :: "WizardButton \<Rightarrow> error + WizardEvent list" where
  "handleNavigationEvent button =
     (if \<not> isNavigable button
      then Inl (Error ''Non-navigable button sent to handleNavigationEvent'')
      else (case destination button of
              Some d \<Rightarrow> Inr [WizardNavigationEvent d]
            | None \<Rightarrow> Inl (Error ''Non-navigable button sent to handleNavigationEvent'')))"

definition onWizardNavigationEvent :: "WizardButton \<Rightarrow> error + WizardEvent list" where
  "onWizardNavigationEvent button = handleNavigationEvent button"

definition onWizardCloseEvent :: "error + WizardEvent list" where
  "onWizardCloseEvent = Inr [WizardCloseEvent]"

text \<open>
  The \<^verbatim>\<open>value\<close> property of an \<^verbatim>\<open>HTMLButtonElement\<close> reflects the content attribute of that
  name and is the empty string when the element has none.
\<close>

definition valueOf :: "ButtonElement \<Rightarrow> string" where
  "valueOf el = (case map_of (attributes el) ''value'' of Some v \<Rightarrow> v | None \<Rightarrow> [])"

text \<open>\<open>onSidebarNav\<close> takes the event's target, the button that was clicked.\<close>

definition onSidebarNav :: "ButtonElement \<Rightarrow> error + WizardEvent list" where
  "onSidebarNav evTarget =
     (let target = valueOf evTarget in Inr [WizardNavigationEvent target])"

text \<open>
  A click on a rendered button runs its listener with the button as the event's target;
  a disabled button receives no click.
\<close>

definition click :: "ButtonElement \<Rightarrow> error + WizardEvent list" where
  "click el =
     (if isDisabled el then Inr []
      else (case onClick el of
              None \<Rightarrow> Inr []
            | Some OnWizardCloseEvent \<Rightarrow> onWizardCloseEvent
            | Some (OnWizardNavigationEvent button) \<Rightarrow> onWizardNavigationEvent button
            | Some OnSidebarNav \<Rightarrow> onSidebarNav el))"

subsection \<open>The step and its rendering\<close>

text \<open>
  The fields of the class, the host element's \<^verbatim>\<open>slot\<close> attribute (\<open>None\<close> when
  \<^verbatim>\<open>getAttribute("slot")\<close> is \<^verbatim>\<open>null\<close>), and the two members a concrete step overrides: the
  \<open>buttons\<close> getter and \<open>renderMain\<close>, the latter as its outcome.
\<close>

record 'm WizardStep =
  step_enabled :: bool
  name :: "string option"
  slot :: "string option"
  wizardStepState :: WizardStepState
  wizardTitle :: string
  wizardDescription :: "string option"
  canCancel :: bool
  step_id :: string
  step_label :: string
  hidden :: bool
  buttons :: "WizardButton list"
  renderMain :: "error + 'm"

text \<open>The class as declared, before any subclass or attribute changes it.\<close>

definition baseStep :: "'m WizardStep" where
  "baseStep =
     \<lparr>step_enabled = False,
      name = None,
      slot = None,
      wizardStepState = \<lparr>currentStep = None, stepLabels = []\<rparr>,
      wizardTitle = ''--unset--'',
      wizardDescription = None,
      canCancel = False,
      step_id = [],
      step_label = ''--unset--'',
      hidden = False,
      buttons = [],
      renderMain = Inl (Error ''This must be overridden in client classes'')\<rparr>"

text \<open>\<^verbatim>\<open>!v\<close> for a value that is a string, \<^verbatim>\<open>undefined\<close> or \<^verbatim>\<open>null\<close>.\<close>

definition falsy :: "string option \<Rightarrow> bool" where
  "falsy v = (case v of None \<Rightarrow> True | Some s \<Rightarrow> s = [])"

text \<open>
  \<open>connectedCallback\<close>, after the superclass's own callback, which touches none of the
  fields above.
\<close>

definition connectedCallback :: "'m WizardStep \<Rightarrow> error + 'm WizardStep" where
  "connectedCallback this =
     (if falsy (name this)
      then (let name' = slot this
            in if falsy name'
               then Inl (Error ''Steps must have a unique slot attribute.'')
               else Inr (this\<lparr>name := name'\<rparr>))
      else Inr this)"

text \<open>
  \<^verbatim>\<open>this.wizardStepState.currentStep === this.getAttribute("slot")\<close>: the left side is a
  string or \<^verbatim>\<open>undefined\<close>, the right side a string or \<^verbatim>\<open>null\<close>, so the two are strictly
  equal only when both are strings.
\<close>

definition slotIsCurrent :: "'m WizardStep \<Rightarrow> bool" where
  "slotIsCurrent this =
     (case (currentStep (wizardStepState this), slot this) of
        (Some c, Some s) \<Rightarrow> c = s
      | _ \<Rightarrow> False)"

text \<open>
  The full body of a step. The \<open>map\<close> directive is lazy: the sidebar entries and the footer
  buttons are produced when the template is committed, so a button that matches no
  pattern is an error inside the footer, not an error of \<open>render\<close>.
\<close>

record 'm StepBody =
  headerCancelIcon :: "ButtonElement option"
  title :: string
  description :: "string option"
  navList :: "ButtonElement list"
  mainBody :: 'm
  footer :: "(error + ButtonTemplate) list"

datatype 'm Template = Nothing | Body "'m StepBody"

definition render :: "'m WizardStep \<Rightarrow> error + 'm Template" where
  "render this =
     (if slotIsCurrent this
      then (case renderMain this of
              Inl e \<Rightarrow> Inl e
            | Inr m \<Rightarrow>
                Inr (Body
                  \<lparr>headerCancelIcon = (if canCancel this then Some renderHeaderCancelIcon else None),
                   title = wizardTitle this,
                   description = wizardDescription this,
                   navList = map renderSidebarStep (stepLabels (wizardStepState this)),
                   mainBody = m,
                   footer = map renderButton (buttons this)\<rparr>))
      else Inr Nothing)"

section \<open>Properties of the container\<close>

lemma set_setAdd: "set (setAdd x s) = insert x (set s)"
  by (auto simp: setAdd_def)

lemma set_fold_setAdd: "set (fold setAdd xs s) = set xs \<union> set s"
  by (induction xs arbitrary: s) (auto simp: set_setAdd)

lemma set_newSet: "set (newSet xs) = set xs"
  by (simp add: newSet_def set_fold_setAdd)

lemma distinct_fold_setAdd: "distinct s \<Longrightarrow> distinct (fold setAdd xs s)"
  by (induction xs arbitrary: s) (auto simp: setAdd_def)

lemma distinct_newSet: "distinct (newSet xs)"
  by (simp add: newSet_def distinct_fold_setAdd)

lemma map_of_setProp: "map_of (setProp k v obj) = (map_of obj)(k \<mapsto> v)"
  by (induction obj) auto

lemma map_of_copyProps:
  "distinct (map fst src) \<Longrightarrow> map_of (copyProps src tgt) = map_of tgt ++ map_of src"
proof (induction src arbitrary: tgt)
  case Nil
  then show ?case by (simp add: copyProps_def)
next
  case (Cons p src)
  obtain k v where p: "p = (k, v)" by (cases p)
  from Cons.prems p have notin: "k \<notin> fst ` set src" and d: "distinct (map fst src)"
    by auto
  have "map_of (copyProps (p # src) tgt) = map_of (copyProps src (setProp k v tgt))"
    by (simp add: copyProps_def p)
  also have "\<dots> = (map_of tgt)(k \<mapsto> v) ++ map_of src"
    by (simp only: Cons.IH [OF d] map_of_setProp)
  also have "\<dots> = map_of tgt ++ map_of (p # src)"
  proof (rule ext)
    fix x
    from notin have "map_of src k = None"
      by (simp add: map_of_eq_None_iff)
    then show "((map_of tgt)(k \<mapsto> v) ++ map_of src) x = (map_of tgt ++ map_of (p # src)) x"
      by (simp add: p map_add_def split: option.splits)
  qed
  finally show ?case .
qed

lemma map_of_spread:
  assumes "distinct (map fst a)" and "distinct (map fst b)"
  shows "map_of (spread a b) = map_of a ++ map_of b"
  by (simp add: spread_def map_of_copyProps assms)

lemma map_of_spread_key:
  assumes "distinct (map fst a)" and "distinct (map fst b)"
  shows "map_of (spread a b) k = (case map_of b k of Some v \<Rightarrow> Some v | None \<Rightarrow> map_of a k)"
  by (simp add: map_of_spread assms map_add_def)

lemma distinct_setProp: "distinct (map fst obj) \<Longrightarrow> distinct (map fst (setProp k v obj))"
proof (induction obj)
  case Nil
  then show ?case by simp
next
  case (Cons p obj)
  have keys: "fst ` set (setProp k v obj) = insert k (fst ` set obj)"
    by (induction obj) auto
  from Cons show ?case by (auto simp: keys)
qed

lemma distinct_copyProps:
  "distinct (map fst tgt) \<Longrightarrow> distinct (map fst (copyProps src tgt))"
  unfolding copyProps_def
  by (induction src arbitrary: tgt) (auto simp: distinct_setProp)

lemma distinct_spread: "distinct (map fst (spread a b))"
  by (simp add: spread_def distinct_copyProps)

lemma enabled_mergeUpdate: "enabled (mergeUpdate u this) = enabled this"
  by (cases u) (simp_all add: mergeUpdate_def alloc_def)

lemma heap_applyStatus: "heap (applyStatus s this) = heap this"
  by (cases s) (simp_all add: applyStatus_def Let_def)

lemma wizard_applyStatus: "wizard (applyStatus s this) = wizard this"
  by (cases s) (simp_all add: applyStatus_def Let_def)

lemma wizardOf_applyStatus: "wizardOf (applyStatus s this) = wizardOf this"
  by (simp add: wizardOf_def heap_applyStatus wizard_applyStatus)

lemma heap_mergeUpdate_Some:
  "heap (mergeUpdate (Some upd) this) = heap this @ [spread (wizardOf this) upd]"
  by (simp add: mergeUpdate_def alloc_def)

lemma wizard_mergeUpdate_Some: "wizard (mergeUpdate (Some upd) this) = length (heap this)"
  by (simp add: mergeUpdate_def alloc_def)

lemma wizardOf_mergeUpdate_Some:
  "wizardOf (mergeUpdate (Some upd) this) = spread (wizardOf this) upd"
  by (simp add: wizardOf_def deref_def heap_mergeUpdate_Some wizard_mergeUpdate_Some)

lemma snd_handleUpdate:
  "snd (handleUpdate ev this) =
     applyStatus (status (content ev)) (mergeUpdate (update (content ev)) this)"
  by (simp add: handleUpdate_def stopPropagation_def Let_def)

lemma wizardOf_handleUpdate:
  "wizardOf (snd (handleUpdate ev this)) =
     (case update (content ev) of
        None \<Rightarrow> wizardOf this
      | Some upd \<Rightarrow> spread (wizardOf this) upd)"
proof (cases "update (content ev)")
  case None
  then show ?thesis
    by (simp add: snd_handleUpdate wizardOf_applyStatus mergeUpdate_def)
next
  case (Some upd)
  then show ?thesis
    by (simp add: snd_handleUpdate wizardOf_applyStatus wizardOf_mergeUpdate_Some)
qed

lemma wf_main_handleUpdate: "wf_main this \<Longrightarrow> wf_main (snd (handleUpdate ev this))"
proof (cases "update (content ev)")
  case None
  assume "wf_main this"
  with None show ?thesis
    by (simp add: wf_main_def snd_handleUpdate wizardOf_applyStatus heap_applyStatus
        wizard_applyStatus mergeUpdate_def)
next
  case (Some upd)
  then show ?thesis
    by (simp add: wf_main_def snd_handleUpdate wizardOf_applyStatus heap_applyStatus
        wizard_applyStatus wizardOf_mergeUpdate_Some heap_mergeUpdate_Some
        wizard_mergeUpdate_Some distinct_spread)
qed

lemma handleAll_Nil: "handleAll [] this = this"
  by (simp add: handleAll_def)

lemma handleAll_Cons: "handleAll (ev # evs) this = handleAll evs (snd (handleUpdate ev this))"
  by (simp add: handleAll_def)

lemma updatesOf_Nil: "updatesOf [] = []"
  by (simp add: updatesOf_def)

lemma updatesOf_Cons:
  "updatesOf (ev # evs) =
     (case update (content ev) of None \<Rightarrow> updatesOf evs | Some u \<Rightarrow> u # updatesOf evs)"
  by (cases "update (content ev)") (simp_all add: updatesOf_def)

lemma wizardOf_handleAll:
  "wizardOf (handleAll evs this) = shallowMergeAll (wizardOf this) (updatesOf evs)"
proof (induction evs arbitrary: this)
  case Nil
  show ?case by (simp add: handleAll_Nil updatesOf_Nil)
next
  case (Cons ev evs)
  show ?case
    by (cases "update (content ev)")
       (simp_all add: handleAll_Cons updatesOf_Cons Cons.IH wizardOf_handleUpdate)
qed

lemma map_of_shallowMergeAll:
  assumes "distinct (map fst w)" and "\<forall>u \<in> set us. distinct (map fst u)"
  shows "map_of (shallowMergeAll w us) = foldl (++) (map_of w) (map map_of us)"
  using assms
proof (induction us arbitrary: w)
  case Nil
  show ?case by simp
next
  case (Cons u us)
  have "map_of (shallowMergeAll (spread w u) us) = foldl (++) (map_of (spread w u)) (map map_of us)"
    using Cons.prems by (intro Cons.IH) (simp_all add: distinct_spread)
  with Cons.prems show ?case
    by (simp add: map_of_spread)
qed

lemma asArr_orEmpty_cases:
  "asArr (orEmpty v) = (case v of None \<Rightarrow> [] | Some (One x) \<Rightarrow> [x] | Some (Many xs) \<Rightarrow> xs)"
  by (simp split: option.splits one_or_many.splits)

lemma set_asArr_orEmpty:
  "set (asArr (orEmpty v)) =
     (case v of None \<Rightarrow> {} | Some (One x) \<Rightarrow> {x} | Some (Many xs) \<Rightarrow> set xs)"
  by (simp split: option.splits one_or_many.splits)

section \<open>Claims about the container\<close>

text \<open>
  C1. Whenever the content of the event carries a status, the new enabled set is the old
  one without the identifiers of \<open>status.disable\<close>, united with the identifiers of
  \<open>status.enable\<close>. Each of the two is absent, a single identifier or a list of
  identifiers, and is normalised to a list first: to the empty list, to the list of that
  one identifier, or to the list itself. In particular an identifier that is both
  enabled and disabled by the same status is enabled afterwards, enabling what is
  already enabled changes nothing, and disabling what is not enabled changes nothing.
\<close>

theorem handleUpdate_status_enabled:
  assumes "status (content ev) = Some st"
  shows "let en = (case enable st of
                     None \<Rightarrow> {} | Some (One x) \<Rightarrow> {x} | Some (Many xs) \<Rightarrow> set xs);
             dis = (case disable st of
                      None \<Rightarrow> {} | Some (One x) \<Rightarrow> {x} | Some (Many xs) \<Rightarrow> set xs);
             old = set (enabled this);
             new = set (enabled (snd (handleUpdate ev this)))
         in new = (old - dis) \<union> en
          \<and> (\<forall>x. x \<in> en \<and> x \<in> dis \<longrightarrow> x \<in> new)
          \<and> (en \<subseteq> old \<and> dis = {} \<longrightarrow> new = old)
          \<and> (dis \<inter> old = {} \<and> en = {} \<longrightarrow> new = old)
          \<and> asArr (orEmpty (enable st)) =
                (case enable st of
                   None \<Rightarrow> [] | Some (One x) \<Rightarrow> [x] | Some (Many xs) \<Rightarrow> xs)
          \<and> asArr (orEmpty (disable st)) =
                (case disable st of
                   None \<Rightarrow> [] | Some (One x) \<Rightarrow> [x] | Some (Many xs) \<Rightarrow> xs)"
proof -
  define en where "en = (case enable st of
                     None \<Rightarrow> {} | Some (One x) \<Rightarrow> {x} | Some (Many xs) \<Rightarrow> set xs)"
  define dis where "dis = (case disable st of
                      None \<Rightarrow> {} | Some (One x) \<Rightarrow> {x} | Some (Many xs) \<Rightarrow> set xs)"
  define old where "old = set (enabled this)"
  define new where "new = set (enabled (snd (handleUpdate ev this)))"
  have en: "set (asArr (orEmpty (enable st))) = en"
    unfolding en_def by (rule set_asArr_orEmpty)
  have dis: "set (asArr (orEmpty (disable st))) = dis"
    unfolding dis_def by (rule set_asArr_orEmpty)
  have "enabled (snd (handleUpdate ev this)) =
          newSet (filter (\<lambda>k. k \<notin> dis) (enabled this) @ asArr (orEmpty (enable st)))"
    using assms
    by (simp add: snd_handleUpdate applyStatus_def Let_def enabled_mergeUpdate dis)
  then have "new = set (filter (\<lambda>k. k \<notin> dis) (enabled this)) \<union> en"
    unfolding new_def by (simp add: set_newSet en)
  then have main: "new = (old - dis) \<union> en"
    unfolding old_def by auto
  have both: "\<forall>x. x \<in> en \<and> x \<in> dis \<longrightarrow> x \<in> new"
    using main by blast
  have idem: "en \<subseteq> old \<and> dis = {} \<longrightarrow> new = old"
    using main by auto
  have noop: "dis \<inter> old = {} \<and> en = {} \<longrightarrow> new = old"
    using main by auto
  have arr_en: "asArr (orEmpty (enable st)) =
                (case enable st of
                   None \<Rightarrow> [] | Some (One x) \<Rightarrow> [x] | Some (Many xs) \<Rightarrow> xs)"
    by (rule asArr_orEmpty_cases)
  have arr_dis: "asArr (orEmpty (disable st)) =
                (case disable st of
                   None \<Rightarrow> [] | Some (One x) \<Rightarrow> [x] | Some (Many xs) \<Rightarrow> xs)"
    by (rule asArr_orEmpty_cases)
  from main both idem noop arr_en arr_dis show ?thesis
    unfolding Let_def en_def dis_def old_def new_def by (intro conjI)
qed

theorem handleUpdate_status_enabled_witness:
  "set (enabled (snd (handleUpdate
      \<lparr>content = \<lparr>update = None,
                   status = Some \<lparr>enable = Some (One ''provider''),
                                  disable = Some (Many [''provider'', ''submit''])\<rparr>\<rparr>,
       propagationStopped = False\<rparr>
      \<lparr>heap = [freshWizardState], wizard = 0, enabled = [''application'', ''submit'']\<rparr>)))
   = {''application'', ''provider''}"
proof -
  let ?st = "\<lparr>enable = Some (One ''provider''), disable = Some (Many [''provider'', ''submit''])\<rparr>"
  let ?ev = "\<lparr>content = \<lparr>update = None, status = Some ?st\<rparr>, propagationStopped = False\<rparr>"
  let ?s0 = "\<lparr>heap = [freshWizardState], wizard = 0, enabled = [''application'', ''submit'']\<rparr>"
  have h: "status (content ?ev) = Some ?st" by simp
  note all = handleUpdate_status_enabled [OF h, of ?s0, unfolded Let_def]
  from all [THEN conjunct1]
  have "set (enabled (snd (handleUpdate ?ev ?s0)))
          = ({''application'', ''submit''} - {''provider'', ''submit''}) \<union> {''provider''}"
    by simp
  also have "\<dots> = {''application'', ''provider''}"
    by auto
  finally show ?thesis .
qed

text \<open>
  C10. When the content of the event carries neither an update nor a status, the handler
  leaves the component as it is (the wizard reference, the store and the enabled set);
  all it does is mark the event as handled.
\<close>

theorem handleUpdate_no_content:
  assumes "update (content ev) = None" and "status (content ev) = None"
  shows "handleUpdate ev this = (ev\<lparr>propagationStopped := True\<rparr>, this)"
  using assms
  by (simp add: handleUpdate_def stopPropagation_def mergeUpdate_def applyStatus_def Let_def)

theorem handleUpdate_no_content_witness:
  "handleUpdate \<lparr>content = \<lparr>update = None, status = None\<rparr>, propagationStopped = False\<rparr> initMain
     = (\<lparr>content = \<lparr>update = None, status = None\<rparr>, propagationStopped = True\<rparr>, initMain)"
proof -
  let ?ev = "\<lparr>content = \<lparr>update = None, status = None\<rparr>, propagationStopped = False\<rparr>"
  have u: "update (content ?ev) = None" and s: "status (content ?ev) = None"
    by simp_all
  from handleUpdate_no_content [OF u s, of initMain] show ?thesis
    by simp
qed

text \<open>
  C2. When the content of the event carries an update, the new wizard state is the
  shallow merge of the old state with the update: a top-level key of the update has the
  update's value, whole (nested objects are not merged), any other key keeps its old
  value. The merged state is a new object: the component's reference changes, and
  every object that was in the store, the old state among them, is unchanged.
\<close>

theorem handleUpdate_update_shallow_merge:
  assumes "update (content ev) = Some upd"
    and "distinct (map fst upd)"
    and "wf_main this"
  shows "let this' = snd (handleUpdate ev this)
         in (\<forall>k. map_of (wizardOf this') k =
                   (case map_of upd k of Some v \<Rightarrow> Some v | None \<Rightarrow> map_of (wizardOf this) k))
          \<and> wizard this' \<noteq> wizard this
          \<and> (\<forall>r < length (heap this). deref (heap this') r = deref (heap this) r)
          \<and> wf_main this'"
proof -
  define this' where "this' = snd (handleUpdate ev this)"
  from assms(3) have d: "distinct (map fst (wizardOf this))" and inb: "wizard this < length (heap this)"
    by (simp_all add: wf_main_def)
  have w: "wizardOf this' = spread (wizardOf this) upd"
    unfolding this'_def by (simp add: wizardOf_handleUpdate assms(1))
  have keys: "\<forall>k. map_of (wizardOf this') k =
                (case map_of upd k of Some v \<Rightarrow> Some v | None \<Rightarrow> map_of (wizardOf this) k)"
    by (simp add: w map_of_spread_key [OF d assms(2)])
  have h: "heap this' = heap this @ [spread (wizardOf this) upd]"
    unfolding this'_def by (simp add: snd_handleUpdate heap_applyStatus heap_mergeUpdate_Some assms(1))
  have r: "wizard this' = length (heap this)"
    unfolding this'_def by (simp add: snd_handleUpdate wizard_applyStatus wizard_mergeUpdate_Some assms(1))
  from r inb have fresh: "wizard this' \<noteq> wizard this"
    by simp
  have kept: "\<forall>r < length (heap this). deref (heap this') r = deref (heap this) r"
    by (simp add: h deref_def nth_append)
  have wf: "wf_main this'"
    unfolding this'_def using assms(3) by (rule wf_main_handleUpdate)
  from keys fresh kept wf show ?thesis
    unfolding Let_def this'_def by (intro conjI)
qed

theorem handleUpdate_update_shallow_merge_witness:
  "map_of (wizardOf (snd (handleUpdate
       \<lparr>content = \<lparr>update = Some [(''app'', Obj [(''slug'', Str ''y'')])], status = None\<rparr>,
        propagationStopped = False\<rparr>
       \<lparr>heap = [[(''app'', Obj [(''name'', Str ''x'')])]], wizard = 0,
        enabled = [''application'']\<rparr>))) ''app''
     = Some (Obj [(''slug'', Str ''y'')])
   \<and> wizard (snd (handleUpdate
       \<lparr>content = \<lparr>update = Some [(''app'', Obj [(''slug'', Str ''y'')])], status = None\<rparr>,
        propagationStopped = False\<rparr>
       \<lparr>heap = [[(''app'', Obj [(''name'', Str ''x'')])]], wizard = 0,
        enabled = [''application'']\<rparr>)) \<noteq> 0
   \<and> deref (heap (snd (handleUpdate
       \<lparr>content = \<lparr>update = Some [(''app'', Obj [(''slug'', Str ''y'')])], status = None\<rparr>,
        propagationStopped = False\<rparr>
       \<lparr>heap = [[(''app'', Obj [(''name'', Str ''x'')])]], wizard = 0,
        enabled = [''application'']\<rparr>))) 0
     = [(''app'', Obj [(''name'', Str ''x'')])]"
proof -
  let ?upd = "[(''app'', Obj [(''slug'', Str ''y'')])]"
  let ?ev = "\<lparr>content = \<lparr>update = Some ?upd, status = None\<rparr>, propagationStopped = False\<rparr>"
  let ?s0 = "\<lparr>heap = [[(''app'', Obj [(''name'', Str ''x'')])]], wizard = 0,
               enabled = [''application'']\<rparr>"
  let ?s1 = "snd (handleUpdate ?ev ?s0)"
  have h1: "update (content ?ev) = Some ?upd" by simp
  have h2: "distinct (map fst ?upd)" by simp
  have h3: "wf_main ?s0" by (simp add: wf_main_def wizardOf_def deref_def)
  note all = handleUpdate_update_shallow_merge [OF h1 h2 h3, unfolded Let_def]
  note keys = all [THEN conjunct1]
  note fresh = all [THEN conjunct2, THEN conjunct1]
  note kept = all [THEN conjunct2, THEN conjunct2, THEN conjunct1]
  from keys have "map_of (wizardOf ?s1) ''app'' =
      (case map_of ?upd ''app'' of Some v \<Rightarrow> Some v | None \<Rightarrow> map_of (wizardOf ?s0) ''app'')"
    by (rule spec)
  then have a: "map_of (wizardOf ?s1) ''app'' = Some (Obj [(''slug'', Str ''y'')])"
    by simp
  from fresh have b: "wizard ?s1 \<noteq> 0"
    by simp
  from kept have "deref (heap ?s1) 0 = deref (heap ?s0) 0"
    by simp
  then have c: "deref (heap ?s1) 0 = [(''app'', Obj [(''name'', Str ''x'')])]"
    by (simp add: deref_def)
  from a b c show ?thesis
    by (intro conjI)
qed

text \<open>
  C3, as the claim states it: after a sequence of update events the wizard state would be
  the deep merge of the updates, in order, into the initial state. The handler merges
  at the top level only, so the claim fails as soon as an update carries a nested
  object for a key that already holds one; this is the specification's own example.
\<close>

theorem handleAll_deep_merge_counterexample:
  "wizardOf (handleAll
       [\<lparr>content = \<lparr>update = Some [(''app'', Obj [(''slug'', Str ''y'')])], status = None\<rparr>,
         propagationStopped = False\<rparr>]
       \<lparr>heap = [[(''app'', Obj [(''name'', Str ''x'')])]], wizard = 0,
        enabled = [''application'']\<rparr>)
     = [(''app'', Obj [(''slug'', Str ''y'')])]
   \<and> deepMergeAll
       (wizardOf \<lparr>heap = [[(''app'', Obj [(''name'', Str ''x'')])]], wizard = 0,
                 enabled = [''application'']\<rparr>)
       (updatesOf
         [\<lparr>content = \<lparr>update = Some [(''app'', Obj [(''slug'', Str ''y'')])], status = None\<rparr>,
           propagationStopped = False\<rparr>])
     = [(''app'', Obj [(''name'', Str ''x''), (''slug'', Str ''y'')])]
   \<and> wizardOf (handleAll
       [\<lparr>content = \<lparr>update = Some [(''app'', Obj [(''slug'', Str ''y'')])], status = None\<rparr>,
         propagationStopped = False\<rparr>]
       \<lparr>heap = [[(''app'', Obj [(''name'', Str ''x'')])]], wizard = 0,
        enabled = [''application'']\<rparr>)
     \<noteq> deepMergeAll
       (wizardOf \<lparr>heap = [[(''app'', Obj [(''name'', Str ''x'')])]], wizard = 0,
                 enabled = [''application'']\<rparr>)
       (updatesOf
         [\<lparr>content = \<lparr>update = Some [(''app'', Obj [(''slug'', Str ''y'')])], status = None\<rparr>,
           propagationStopped = False\<rparr>])"
proof -
  let ?upd = "[(''app'', Obj [(''slug'', Str ''y'')])]"
  let ?ev = "\<lparr>content = \<lparr>update = Some ?upd, status = None\<rparr>, propagationStopped = False\<rparr>"
  let ?s0 = "\<lparr>heap = [[(''app'', Obj [(''name'', Str ''x'')])]], wizard = 0,
               enabled = [''application'']\<rparr>"
  have code: "wizardOf (handleAll [?ev] ?s0) = [(''app'', Obj [(''slug'', Str ''y'')])]"
    by (simp add: handleAll_def handleUpdate_def stopPropagation_def mergeUpdate_def
        applyStatus_def alloc_def wizardOf_def deref_def spread_def copyProps_def)
  have deep: "deepMergeAll (wizardOf ?s0) (updatesOf [?ev])
                = [(''app'', Obj [(''name'', Str ''x''), (''slug'', Str ''y'')])]"
    by (simp add: updatesOf_Cons updatesOf_Nil wizardOf_def deref_def)
  have "wizardOf (handleAll [?ev] ?s0) \<noteq> deepMergeAll (wizardOf ?s0) (updatesOf [?ev])"
    unfolding code deep by simp
  with code deep show ?thesis
    by (intro conjI)
qed

text \<open>
  C3, amended: after a sequence of update events the wizard state is the fold of the
  shallow merge over the initial state, the updates taken in order; at the top level a
  key has the value of the last update that carries it, and its initial value if none does.
\<close>

theorem handleAll_shallow_merge_fold:
  assumes "wf_main this"
    and "\<forall>u \<in> set (updatesOf evs). distinct (map fst u)"
  shows "wizardOf (handleAll evs this) = shallowMergeAll (wizardOf this) (updatesOf evs)
       \<and> map_of (wizardOf (handleAll evs this))
           = foldl (++) (map_of (wizardOf this)) (map map_of (updatesOf evs))"
proof -
  from assms(1) have d: "distinct (map fst (wizardOf this))"
    by (simp add: wf_main_def)
  have fold_eq: "wizardOf (handleAll evs this) = shallowMergeAll (wizardOf this) (updatesOf evs)"
    by (rule wizardOf_handleAll)
  moreover have "map_of (wizardOf (handleAll evs this))
           = foldl (++) (map_of (wizardOf this)) (map map_of (updatesOf evs))"
    unfolding fold_eq using d assms(2) by (rule map_of_shallowMergeAll)
  ultimately show ?thesis
    by (intro conjI)
qed

theorem handleAll_shallow_merge_fold_witness:
  "wizardOf (handleAll
      [\<lparr>content = \<lparr>update = Some [(''app'', Obj [(''name'', Str ''x'')])], status = None\<rparr>,
        propagationStopped = False\<rparr>,
       \<lparr>content = \<lparr>update = None,
                   status = Some \<lparr>enable = Some (One ''provider''), disable = None\<rparr>\<rparr>,
        propagationStopped = False\<rparr>,
       \<lparr>content = \<lparr>update = Some [(''app'', Obj [(''slug'', Str ''y'')]),
                                  (''providerModel'', Str ''oauth2'')],
                   status = None\<rparr>,
        propagationStopped = False\<rparr>]
      initMain)
     = [(''providerModel'', Str ''oauth2''),
        (''currentBinding'', Num (- 1)),
        (''app'', Obj [(''slug'', Str ''y'')]),
        (''provider'', Obj []),
        (''errors'', Obj []),
        (''bindings'', Arr [])]
   \<and> map_of (wizardOf (handleAll
      [\<lparr>content = \<lparr>update = Some [(''app'', Obj [(''name'', Str ''x'')])], status = None\<rparr>,
        propagationStopped = False\<rparr>,
       \<lparr>content = \<lparr>update = None,
                   status = Some \<lparr>enable = Some (One ''provider''), disable = None\<rparr>\<rparr>,
        propagationStopped = False\<rparr>,
       \<lparr>content = \<lparr>update = Some [(''app'', Obj [(''slug'', Str ''y'')]),
                                  (''providerModel'', Str ''oauth2'')],
                   status = None\<rparr>,
        propagationStopped = False\<rparr>]
      initMain)) ''app''
     = Some (Obj [(''slug'', Str ''y'')])"
proof -
  let ?u1 = "[(''app'', Obj [(''name'', Str ''x'')])]"
  let ?u3 = "[(''app'', Obj [(''slug'', Str ''y'')]), (''providerModel'', Str ''oauth2'')]"
  let ?evs =
    "[\<lparr>content = \<lparr>update = Some ?u1, status = None\<rparr>, propagationStopped = False\<rparr>,
      \<lparr>content = \<lparr>update = None,
                  status = Some \<lparr>enable = Some (One ''provider''), disable = None\<rparr>\<rparr>,
       propagationStopped = False\<rparr>,
      \<lparr>content = \<lparr>update = Some ?u3, status = None\<rparr>, propagationStopped = False\<rparr>]"
  have us: "updatesOf ?evs = [?u1, ?u3]"
    by (simp add: updatesOf_Cons updatesOf_Nil)
  have w0: "wizardOf initMain = freshWizardState"
    by (simp add: wizardOf_def initMain_def deref_def)
  have h1: "wf_main initMain"
    by (simp add: wf_main_def w0) (simp add: initMain_def freshWizardState_def)
  have h2: "\<forall>u \<in> set (updatesOf ?evs). distinct (map fst u)"
    unfolding us by simp
  note both = handleAll_shallow_merge_fold [OF h1 h2]
  from both [THEN conjunct1]
  have a: "wizardOf (handleAll ?evs initMain) =
             [(''providerModel'', Str ''oauth2''),
              (''currentBinding'', Num (- 1)),
              (''app'', Obj [(''slug'', Str ''y'')]),
              (''provider'', Obj []),
              (''errors'', Obj []),
              (''bindings'', Arr [])]"
    unfolding us w0 by (simp add: freshWizardState_def spread_def copyProps_def)
  from both [THEN conjunct2]
  have "map_of (wizardOf (handleAll ?evs initMain)) ''app''
          = foldl (++) (map_of (wizardOf initMain)) (map map_of (updatesOf ?evs)) ''app''"
    by (rule fun_cong)
  then have b: "map_of (wizardOf (handleAll ?evs initMain)) ''app''
                  = Some (Obj [(''slug'', Str ''y'')])"
    unfolding us w0 by (simp add: freshWizardState_def)
  from a b show ?thesis
    by (intro conjI)
qed

section \<open>Claims about the step\<close>

text \<open>
  C5. A button whose \<open>disabled\<close> field is true is rendered by \<open>renderDisabledButton\<close>,
  whatever its kind and whether or not it has a destination: the test for
  \<open>disabled\<close> is the first of the match.
\<close>

theorem renderButton_disabled_first:
  assumes "disabled button = Some True"
  shows "renderButton button = Inr (renderDisabledButton button)"
  using assms by (simp add: renderButton_def)

theorem renderButton_disabled_first_witness:
  "renderButton \<lparr>kind = Close, label = None, disabled = Some True, destination = Some ''provider''\<rparr>
     = Inr (Bare \<lparr>classes = [''pf-c-button'', ''pf-m-link''],
                  attributes = [(''type'', ''button'')],
                  isDisabled = True,
                  onClick = None,
                  textContent = ''Close''\<rparr>)"
proof -
  let ?b = "\<lparr>kind = Close, label = None, disabled = Some True, destination = Some ''provider''\<rparr>"
  have h: "disabled ?b = Some True" by simp
  from renderButton_disabled_first [OF h] show ?thesis
    by (simp add: renderDisabledButton_def classMap_def getButtonClasses_def getButtonLabel_def
        msg_def)
qed

text \<open>
  C6. A button of kind close or cancel whose \<open>disabled\<close> field is not true (false or
  absent) is rendered by \<open>renderCloseButton\<close>, and never as a navigable button, also
  when it has a destination.
\<close>

theorem renderButton_close_before_destination:
  assumes "kind button = Close \<or> kind button = Cancel"
    and "disabled button \<noteq> Some True"
  shows "renderButton button = Inr (renderCloseButton button)
       \<and> (\<forall>b. renderButton button \<noteq> Inr (renderNavigableButton b))"
  using assms by (auto simp: renderButton_def renderCloseButton_def renderNavigableButton_def)

theorem renderButton_close_before_destination_witness:
  "renderButton \<lparr>kind = Cancel, label = None, disabled = Some False, destination = Some ''provider''\<rparr>
     = Inr (FooterCancel \<lparr>classes = [''pf-c-button'', ''pf-m-link''],
                          attributes = [(''type'', ''button'')],
                          isDisabled = False,
                          onClick = Some OnWizardCloseEvent,
                          textContent = ''Cancel''\<rparr>)"
proof -
  let ?b = "\<lparr>kind = Cancel, label = None, disabled = Some False, destination = Some ''provider''\<rparr>"
  have h1: "kind ?b = Close \<or> kind ?b = Cancel" by simp
  have h2: "disabled ?b \<noteq> Some True" by simp
  from renderButton_close_before_destination [OF h1 h2, THEN conjunct1] show ?thesis
    by (simp add: renderCloseButton_def classMap_def getButtonClasses_def getButtonLabel_def
        msg_def)
qed

text \<open>
  C7. \<open>handleNavigationEvent\<close> raises an error exactly when the button is not navigable,
  a button being navigable exactly when it has a destination that is a non-empty
  string; for a navigable button it dispatches one navigation request, which carries
  the button's destination.
\<close>

theorem handleNavigationEvent_iff_navigable:
  "((\<exists>e. handleNavigationEvent button = Inl e) \<longleftrightarrow> \<not> isNavigable button)
   \<and> (isNavigable button \<longleftrightarrow> (\<exists>d. destination button = Some d \<and> d \<noteq> []))
   \<and> (\<forall>d. destination button = Some d \<and> d \<noteq> []
          \<longrightarrow> handleNavigationEvent button = Inr [WizardNavigationEvent d])"
  by (cases "destination button") (auto simp: handleNavigationEvent_def isNavigable_def)

theorem handleNavigationEvent_iff_navigable_witness:
  "handleNavigationEvent
      \<lparr>kind = Next, label = None, disabled = None, destination = Some ''provider''\<rparr>
     = Inr [WizardNavigationEvent ''provider'']"
proof -
  let ?b = "\<lparr>kind = Next, label = None, disabled = None, destination = Some ''provider''\<rparr>"
  have h: "destination ?b = Some ''provider'' \<and> ''provider'' \<noteq> []" by simp
  from handleNavigationEvent_iff_navigable [of ?b, THEN conjunct2, THEN conjunct2]
  have "destination ?b = Some ''provider'' \<and> ''provider'' \<noteq> []
          \<longrightarrow> handleNavigationEvent ?b = Inr [WizardNavigationEvent ''provider'']"
    by (rule spec)
  from this h show ?thesis
    by (rule mp)
qed

text \<open>
  C8. The claim: a click on the sidebar entry of a step raises a navigation request for
  that step's identifier. The entry is rendered with the identifier in its \<^verbatim>\<open>target\<close>
  attribute, the listener reads the button's \<^verbatim>\<open>value\<close>; the request that is raised for
  the step \<open>provider\<close> carries the empty string.
\<close>

theorem sidebar_click_loses_step_id:
  "click (renderSidebarStep
      \<lparr>sl_id = ''provider'', sl_label = ''Provider'', sl_enabled = True, sl_active = False\<rparr>)
     = Inr [WizardNavigationEvent '''']"
  by (simp add: click_def renderSidebarStep_def onSidebarNav_def valueOf_def classMap_def)

text \<open>
  C9, as the claim states it: a step with an explicit name keeps it when it is connected.
  The callback tests the name for truthiness, so a name that is set to the empty string
  counts as not set and is replaced by the slot attribute.
\<close>

theorem connectedCallback_explicit_name_counterexample:
  "name \<lparr>step_enabled = False, name = Some '''', slot = Some ''application'',
          wizardStepState = \<lparr>currentStep = None, stepLabels = []\<rparr>,
          wizardTitle = ''--unset--'', wizardDescription = None, canCancel = False,
          step_id = '''', step_label = ''--unset--'', hidden = False, buttons = [],
          renderMain = Inr ()\<rparr> = Some ''''
   \<and> connectedCallback
         \<lparr>step_enabled = False, name = Some '''', slot = Some ''application'',
          wizardStepState = \<lparr>currentStep = None, stepLabels = []\<rparr>,
          wizardTitle = ''--unset--'', wizardDescription = None, canCancel = False,
          step_id = '''', step_label = ''--unset--'', hidden = False, buttons = [],
          renderMain = Inr ()\<rparr>
       = Inr \<lparr>step_enabled = False, name = Some ''application'', slot = Some ''application'',
          wizardStepState = \<lparr>currentStep = None, stepLabels = []\<rparr>,
          wizardTitle = ''--unset--'', wizardDescription = None, canCancel = False,
          step_id = '''', step_label = ''--unset--'', hidden = False, buttons = [],
          renderMain = Inr ()\<rparr>
   \<and> connectedCallback
         \<lparr>step_enabled = False, name = Some '''', slot = Some ''application'',
          wizardStepState = \<lparr>currentStep = None, stepLabels = []\<rparr>,
          wizardTitle = ''--unset--'', wizardDescription = None, canCancel = False,
          step_id = '''', step_label = ''--unset--'', hidden = False, buttons = [],
          renderMain = Inr ()\<rparr>
       \<noteq> Inr \<lparr>step_enabled = False, name = Some '''', slot = Some ''application'',
          wizardStepState = \<lparr>currentStep = None, stepLabels = []\<rparr>,
          wizardTitle = ''--unset--'', wizardDescription = None, canCancel = False,
          step_id = '''', step_label = ''--unset--'', hidden = False, buttons = [],
          renderMain = Inr ()\<rparr>"
  by (simp add: connectedCallback_def falsy_def Let_def)

text \<open>
  C9, amended: at connect time a step whose name is not set, or is the empty string,
  takes the value of its host slot attribute as its name when that attribute is present
  and not empty; when the slot attribute is absent or empty as well, connecting the step
  raises the configuration error; a step with a non-empty name keeps it, and nothing
  else of the step changes.
\<close>

theorem connectedCallback_name_from_slot:
  "(\<forall>s. falsy (name this) \<and> slot this = Some s \<and> s \<noteq> []
        \<longrightarrow> connectedCallback this = Inr (this\<lparr>name := Some s\<rparr>))
   \<and> (falsy (name this) \<and> falsy (slot this)
        \<longrightarrow> connectedCallback this = Inl (Error ''Steps must have a unique slot attribute.''))
   \<and> (\<forall>n. name this = Some n \<and> n \<noteq> [] \<longrightarrow> connectedCallback this = Inr this)
   \<and> (name this = None \<and> slot this = None
        \<longrightarrow> connectedCallback this = Inl (Error ''Steps must have a unique slot attribute.''))"
  by (auto simp: connectedCallback_def falsy_def Let_def)

theorem connectedCallback_name_from_slot_witness:
  "connectedCallback
      \<lparr>step_enabled = False, name = None, slot = Some ''application'',
       wizardStepState = \<lparr>currentStep = None, stepLabels = []\<rparr>,
       wizardTitle = ''--unset--'', wizardDescription = None, canCancel = False,
       step_id = '''', step_label = ''--unset--'', hidden = False, buttons = [],
       renderMain = Inr ()\<rparr>
     = Inr \<lparr>step_enabled = False, name = Some ''application'', slot = Some ''application'',
       wizardStepState = \<lparr>currentStep = None, stepLabels = []\<rparr>,
       wizardTitle = ''--unset--'', wizardDescription = None, canCancel = False,
       step_id = '''', step_label = ''--unset--'', hidden = False, buttons = [],
       renderMain = Inr ()\<rparr>"
proof -
  let ?s = "\<lparr>step_enabled = False, name = None, slot = Some ''application'',
       wizardStepState = \<lparr>currentStep = None, stepLabels = []\<rparr>,
       wizardTitle = ''--unset--'', wizardDescription = None, canCancel = False,
       step_id = '''', step_label = ''--unset--'', hidden = False, buttons = [],
       renderMain = Inr ()\<rparr>"
  have h: "falsy (name ?s) \<and> slot ?s = Some ''application'' \<and> ''application'' \<noteq> []"
    by (simp add: falsy_def)
  from connectedCallback_name_from_slot [of ?s, THEN conjunct1]
  have "falsy (name ?s) \<and> slot ?s = Some ''application'' \<and> ''application'' \<noteq> []
          \<longrightarrow> connectedCallback ?s = Inr (?s\<lparr>name := Some ''application''\<rparr>)"
    by (rule spec)
  from this h have "connectedCallback ?s = Inr (?s\<lparr>name := Some ''application''\<rparr>)"
    by (rule mp)
  then show ?thesis
    by simp
qed

text \<open>
  C4, as the claim states it: a step renders its full body exactly when its declared name
  equals the current step of the ambient state. \<open>render\<close> compares the current step with
  the host's slot attribute and never reads the name; a step named after the current
  step, in another slot, renders nothing.
\<close>

theorem render_by_name_counterexample:
  "name \<lparr>step_enabled = True, name = Some ''application'', slot = Some ''first'',
          wizardStepState = \<lparr>currentStep = Some ''application'', stepLabels = []\<rparr>,
          wizardTitle = ''New application'', wizardDescription = None, canCancel = False,
          step_id = '''', step_label = ''--unset--'', hidden = False, buttons = [],
          renderMain = Inr ()\<rparr>
     = currentStep (wizardStepState
         \<lparr>step_enabled = True, name = Some ''application'', slot = Some ''first'',
          wizardStepState = \<lparr>currentStep = Some ''application'', stepLabels = []\<rparr>,
          wizardTitle = ''New application'', wizardDescription = None, canCancel = False,
          step_id = '''', step_label = ''--unset--'', hidden = False, buttons = [],
          renderMain = Inr ()\<rparr>)
   \<and> render
         \<lparr>step_enabled = True, name = Some ''application'', slot = Some ''first'',
          wizardStepState = \<lparr>currentStep = Some ''application'', stepLabels = []\<rparr>,
          wizardTitle = ''New application'', wizardDescription = None, canCancel = False,
          step_id = '''', step_label = ''--unset--'', hidden = False, buttons = [],
          renderMain = Inr ()\<rparr>
       = Inr Nothing"
  by (simp add: render_def slotIsCurrent_def)

text \<open>
  C4, amended: for every step and every ambient state, \<open>render\<close> takes the branch of the
  full body exactly when the host's slot attribute is present and equals the current
  step; there it returns the body built around the content of \<open>renderMain\<close>, or raises
  the error \<open>renderMain\<close> raises. Whenever the slot attribute differs from the current
  step, \<open>render\<close> returns empty content. For a step whose name equals its slot attribute,
  as \<open>connectedCallback\<close> makes it when no name is set, this is the comparison with
  the name.
\<close>

theorem render_gated_by_slot:
  "(slotIsCurrent this \<longleftrightarrow>
      (\<exists>c. currentStep (wizardStepState this) = Some c \<and> slot this = Some c))
   \<and> ((\<exists>b. render this = Inr (Body b)) \<longleftrightarrow>
        slotIsCurrent this \<and> (\<exists>m. renderMain this = Inr m))
   \<and> (\<forall>b. render this = Inr (Body b) \<longrightarrow>
        renderMain this = Inr (mainBody b)
        \<and> footer b = map renderButton (buttons this)
        \<and> navList b = map renderSidebarStep (stepLabels (wizardStepState this)))
   \<and> (\<not> slotIsCurrent this \<longrightarrow> render this = Inr Nothing)
   \<and> (\<forall>e. slotIsCurrent this \<and> renderMain this = Inl e \<longrightarrow> render this = Inl e)
   \<and> (name this = slot this \<and> slot this \<noteq> None \<longrightarrow>
        (slotIsCurrent this \<longleftrightarrow> name this = currentStep (wizardStepState this)))"
proof -
  have gate: "slotIsCurrent this \<longleftrightarrow>
      (\<exists>c. currentStep (wizardStepState this) = Some c \<and> slot this = Some c)"
    by (auto simp: slotIsCurrent_def split: option.splits)
  have body: "(\<exists>b. render this = Inr (Body b)) \<longleftrightarrow>
        slotIsCurrent this \<and> (\<exists>m. renderMain this = Inr m)"
    by (cases "renderMain this") (auto simp: render_def)
  have parts: "\<forall>b. render this = Inr (Body b) \<longrightarrow>
        renderMain this = Inr (mainBody b)
        \<and> footer b = map renderButton (buttons this)
        \<and> navList b = map renderSidebarStep (stepLabels (wizardStepState this))"
    by (cases "renderMain this") (auto simp: render_def split: if_splits)
  have empty: "\<not> slotIsCurrent this \<longrightarrow> render this = Inr Nothing"
    by (simp add: render_def)
  have err: "\<forall>e. slotIsCurrent this \<and> renderMain this = Inl e \<longrightarrow> render this = Inl e"
    by (simp add: render_def)
  have byname: "name this = slot this \<and> slot this \<noteq> None \<longrightarrow>
        (slotIsCurrent this \<longleftrightarrow> name this = currentStep (wizardStepState this))"
    by (auto simp: slotIsCurrent_def split: option.splits)
  from gate body parts empty err byname show ?thesis
    by (intro conjI)
qed

theorem render_gated_by_slot_witness:
  "render
      \<lparr>step_enabled = True, name = Some ''application'', slot = Some ''first'',
       wizardStepState = \<lparr>currentStep = Some ''application'', stepLabels = []\<rparr>,
       wizardTitle = ''New application'', wizardDescription = None, canCancel = False,
       step_id = '''', step_label = ''--unset--'', hidden = False, buttons = [],
       renderMain = Inr ()\<rparr>
     = Inr Nothing"
proof -
  let ?s = "\<lparr>step_enabled = True, name = Some ''application'', slot = Some ''first'',
       wizardStepState = \<lparr>currentStep = Some ''application'', stepLabels = []\<rparr>,
       wizardTitle = ''New application'', wizardDescription = None, canCancel = False,
       step_id = '''', step_label = ''--unset--'', hidden = False, buttons = [],
       renderMain = Inr ()\<rparr>"
  have h: "\<not> slotIsCurrent ?s"
    by (simp add: slotIsCurrent_def)
  note all = render_gated_by_slot [of ?s]
  note empty = all [THEN conjunct2, THEN conjunct2, THEN conjunct2, THEN conjunct1]
  from empty h show ?thesis
    by (rule mp)
qed

end
